theory Spec2Isabelle
  imports Complex_Main "HOL-Library.Multiset" "HOL-Library.Char_ord" "HOL-Library.List_Lexorder"
    "HOL-Library.Product_Lexorder"
begin

section \<open>Data model\<close>

text \<open>
  The program is \<^verbatim>\<open>monitor/calc_ipmi_energy.py\<close>. A minute bucket (the floored timestamp
  \<^verbatim>\<open>_minute\<close>) is represented by its minute number, an \<open>int\<close>: the pandas Timestamp is
  that number times one minute. Power values are exact rationals; \<open>None\<close> stands for NaN,
  the missing marker of pandas. Rounding of binary floating point is not part of this
  model.
\<close>

datatype error =
    MissingFieldError string
  | UnparsableTimestampsError
  | EmptyInputError
  | EmptyResultError
  | AutoDetectionFailureError
  | IndexError

type_synonym minute_key = int
type_synonym watts = rat

text \<open>A pandas Series indexed by minute: index entries paired with values.\<close>
type_synonym series = "(minute_key \<times> watts option) list"

text \<open>The tuples \<^verbatim>\<open>(start, end, minutes)\<close> of \<^verbatim>\<open>gaps\<close>.\<close>
type_synonym gap = "minute_key \<times> minute_key \<times> nat"

record GapReport =
  gap_count :: nat
  minutes_missing :: nat
  missing_pct :: rat
  bucket_counts :: "(string \<times> nat) list"
  bucket_minutes :: "(string \<times> nat) list"
  largest_gaps :: "gap list"

definition gap_start :: "gap \<Rightarrow> minute_key" where
  "gap_start g = fst g"

definition gap_end :: "gap \<Rightarrow> minute_key" where
  "gap_end g = fst (snd g)"

definition gap_len :: "gap \<Rightarrow> nat" where
  "gap_len g = snd (snd g)"

section \<open>build_gap_report\<close>

text \<open>\<^verbatim>\<open>series.isna()\<close>\<close>
definition isna :: "series \<Rightarrow> bool list" where
  "isna s = map (\<lambda>kv. snd kv = None) s"

text \<open>\<^verbatim>\<open>full_idx[i]\<close>: an index past the end raises IndexError.\<close>
definition index_get :: "'a list \<Rightarrow> nat \<Rightarrow> error + 'a" where
  "index_get xs i = (if i < length xs then Inr (xs ! i) else Inl IndexError)"

text \<open>The inner loop \<^verbatim>\<open>while j < len(mm) and mm[j]: j += 1\<close>.\<close>
function scan_run :: "bool list \<Rightarrow> nat \<Rightarrow> nat" where
  "scan_run mm j = (if j < length mm \<and> mm ! j then scan_run mm (j + 1) else j)"
  by pat_completeness auto
termination
  by (relation "measure (\<lambda>(mm, j). length mm - j)") auto

declare scan_run.simps [simp del]

text \<open>
  The outer loop \<^verbatim>\<open>while i < len(mm)\<close>, with the list \<^verbatim>\<open>gaps\<close> it appends to.
  Start and end are read from \<^verbatim>\<open>full_idx\<close> at \<^verbatim>\<open>i\<close> and \<^verbatim>\<open>j - 1\<close>, where \<^verbatim>\<open>j\<close> is
  the value the inner loop stops at.
\<close>
function gaps_loop :: "minute_key list \<Rightarrow> bool list \<Rightarrow> nat \<Rightarrow> gap list \<Rightarrow> error + gap list" where
  "gaps_loop full_idx mm i gaps =
     (if i < length mm then
        (if mm ! i then
           (case index_get full_idx i of
              Inl e \<Rightarrow> Inl e
            | Inr s \<Rightarrow>
               (case index_get full_idx (scan_run mm i - 1) of
                  Inl e \<Rightarrow> Inl e
                | Inr e \<Rightarrow>
                    gaps_loop full_idx mm (scan_run mm i)
                      (gaps @ [(s, e, scan_run mm i - i)])))
         else gaps_loop full_idx mm (i + 1) gaps)
      else Inr gaps)"
  by pat_completeness auto
termination
proof (relation "measure (\<lambda>(full_idx, mm, i, gaps). length mm - i)")
  show "wf (measure (\<lambda>(full_idx, mm, i, gaps). length mm - i))" by simp
next
  fix full_idx :: "minute_key list" and mm i and gaps :: "gap list" and s e
  assume "i < length mm" "mm ! i"
  have ge: "j \<le> scan_run mm j" for j
    by (induction mm j rule: scan_run.induct) (subst scan_run.simps, auto)
  from \<open>i < length mm\<close> \<open>mm ! i\<close> have "scan_run mm i = scan_run mm (i + 1)"
    by (subst scan_run.simps) simp
  with ge [of "i + 1"] have "i < scan_run mm i" by simp
  with \<open>i < length mm\<close>
  show "((full_idx, mm, scan_run mm i, gaps @ [(s, e, scan_run mm i - i)]), (full_idx, mm, i, gaps))
        \<in> measure (\<lambda>(full_idx, mm, i, gaps). length mm - i)"
    by simp
next
  fix full_idx :: "minute_key list" and mm :: "bool list" and i and gaps :: "gap list"
  assume "i < length mm"
  then show "((full_idx, mm, i + 1, gaps), (full_idx, mm, i, gaps))
        \<in> measure (\<lambda>(full_idx, mm, i, gaps). length mm - i)"
    by simp
qed

declare gaps_loop.simps [simp del]

text \<open>The table \<^verbatim>\<open>buckets\<close>: label, lower bound, upper bound.\<close>
definition buckets :: "(string \<times> nat \<times> nat) list" where
  "buckets = [(''1-2'', 1, 2), (''3-15'', 3, 15), (''16-120'', 16, 120), (''>120'', 121, 10 ^ 9)]"

text \<open>\<^verbatim>\<open>{k: 0 for k, _, _ in buckets}\<close>\<close>
definition zero_dict :: "(string \<times> nat) list" where
  "zero_dict = map (\<lambda>b. (fst b, 0)) buckets"

text \<open>\<^verbatim>\<open>d[k] += n\<close> for a key of the dictionary (the keys all come from \<^verbatim>\<open>buckets\<close>).\<close>
fun dict_add :: "string \<Rightarrow> nat \<Rightarrow> (string \<times> nat) list \<Rightarrow> (string \<times> nat) list" where
  "dict_add k n [] = []"
| "dict_add k n ((k', v) # d) =
     (if k' = k then (k', v + n) # d else (k', v) # dict_add k n d)"

text \<open>The inner \<^verbatim>\<open>for k, a, b in buckets\<close> with its \<^verbatim>\<open>break\<close>: the first bucket that matches.\<close>
fun classify_gap ::
  "(string \<times> nat \<times> nat) list \<Rightarrow> nat \<Rightarrow>
   (string \<times> nat) list \<times> (string \<times> nat) list \<Rightarrow> (string \<times> nat) list \<times> (string \<times> nat) list" where
  "classify_gap [] len d = d"
| "classify_gap ((k, a, b) # bs) len d =
     (if a \<le> len \<and> len \<le> b then (dict_add k 1 (fst d), dict_add k len (snd d))
      else classify_gap bs len d)"

text \<open>The outer \<^verbatim>\<open>for _, __, length in gaps\<close>.\<close>
fun tally_gaps ::
  "gap list \<Rightarrow> (string \<times> nat) list \<times> (string \<times> nat) list \<Rightarrow>
   (string \<times> nat) list \<times> (string \<times> nat) list" where
  "tally_gaps [] d = d"
| "tally_gaps (g # gs) d = tally_gaps gs (classify_gap buckets (gap_len g) d)"

text \<open>
  \<^verbatim>\<open>sorted(xs, key=..., reverse=True)\<close>: CPython reverses the list, sorts it with its stable
  ascending sort and reverses the result, which keeps equal keys in their original order.
\<close>
definition py_sorted_reverse :: "('a \<Rightarrow> 'k::linorder) \<Rightarrow> 'a list \<Rightarrow> 'a list" where
  "py_sorted_reverse key xs = rev (sort_key key (rev xs))"

text \<open>The slice \<^verbatim>\<open>xs[:n]\<close>; a negative \<^verbatim>\<open>n\<close> counts from the end.\<close>
definition py_slice_to :: "'a list \<Rightarrow> int \<Rightarrow> 'a list" where
  "py_slice_to xs n = (if 0 \<le> n then take (nat n) xs else take (length xs - nat (- n)) xs)"

definition build_gap_report :: "minute_key list \<Rightarrow> series \<Rightarrow> int \<Rightarrow> error + GapReport" where
  "build_gap_report full_idx series top_n =
     (let missing_mask = isna series;
          minutes_total = length full_idx;
          minutes_missing = length (filter (\<lambda>b. b) missing_mask);
          missing_pct = (if minutes_total \<noteq> 0
                         then of_nat minutes_missing / of_nat minutes_total * 100 else 0)
      in case gaps_loop full_idx missing_mask 0 [] of
           Inl e \<Rightarrow> Inl e
         | Inr gaps \<Rightarrow>
             (let tallied = tally_gaps gaps (zero_dict, zero_dict);
                  gaps_sorted = py_slice_to (py_sorted_reverse gap_len gaps) top_n
              in Inr \<lparr>gap_count = length gaps,
                      minutes_missing = minutes_missing,
                      missing_pct = missing_pct,
                      bucket_counts = fst tallied,
                      bucket_minutes = snd tallied,
                      largest_gaps = gaps_sorted\<rparr>))"

section \<open>Vocabulary of the gap claims\<close>

text \<open>The minutes a gap claims: from its start to its end.\<close>
definition gap_minutes :: "gap \<Rightarrow> minute_key list" where
  "gap_minutes g = [gap_start g..gap_end g]"

text \<open>The minutes of the timeline whose value is NaN, in timeline order.\<close>
definition missing_minutes :: "minute_key list \<Rightarrow> series \<Rightarrow> minute_key list" where
  "missing_minutes full_idx series = map fst (filter snd (zip full_idx (isna series)))"

text \<open>The Series of the gap scenario: ten minutes, 120 W where there is a value.\<close>
definition gap_scenario :: series where
  "gap_scenario = [(0, Some 120), (1, Some 120), (2, Some 120), (3, None), (4, None), (5, None),
          (6, None), (7, Some 120), (8, Some 120), (9, Some 120)]"



text \<open>A Series with a value at minute 0, \<open>n\<close> missing minutes and a value at minute \<open>n + 1\<close>.\<close>
definition long_gap :: "nat \<Rightarrow> series" where
  "long_gap n = (0, Some 120) # map (\<lambda>k. (int k, None)) [1..<Suc n] @ [(int n + 1, Some 120)]"

section \<open>Timeline, fill policies and energy (the second half of compute_energy)\<close>

record Result =
  window_start :: minute_key
  window_end :: minute_key
  minutes_total :: nat
  powercol :: string
  avg_watts :: "rat option"
  total_kwh :: rat
  gap_report :: GapReport

text \<open>
  \<^verbatim>\<open>per_min\<close> is the grouped Series: one entry per minute that had a sample, with the mean.
  \<^verbatim>\<open>per_min.index.min()\<close> and \<^verbatim>\<open>max()\<close> are taken of a Series that is not empty.
\<close>
type_synonym bucketed = "(minute_key \<times> watts) list"

definition index_min :: "bucketed \<Rightarrow> minute_key" where
  "index_min per_min = Min (set (map fst per_min))"

definition index_max :: "bucketed \<Rightarrow> minute_key" where
  "index_max per_min = Max (set (map fst per_min))"

text \<open>\<^verbatim>\<open>pd.date_range(start=start, end=end, freq="1min", tz=tz)\<close>\<close>
definition date_range :: "minute_key \<Rightarrow> minute_key \<Rightarrow> minute_key list" where
  "date_range start stop = [start..stop]"

text \<open>\<^verbatim>\<open>per_min.reindex(full_idx)\<close>: a key that is not in \<^verbatim>\<open>per_min\<close> gets NaN.\<close>
definition reindex :: "bucketed \<Rightarrow> minute_key list \<Rightarrow> series" where
  "reindex per_min full_idx = map (\<lambda>k. (k, map_of per_min k)) full_idx"

text \<open>\<^verbatim>\<open>series.ffill()\<close>: a NaN takes the last value before it; leading NaNs stay.\<close>
fun ffill_from :: "watts option \<Rightarrow> series \<Rightarrow> series" where
  "ffill_from prev [] = []"
| "ffill_from prev ((k, Some v) # s) = (k, Some v) # ffill_from (Some v) s"
| "ffill_from prev ((k, None) # s) = (k, prev) # ffill_from prev s"

definition ffill :: "series \<Rightarrow> series" where
  "ffill s = ffill_from None s"

text \<open>The next entry of the Series that has a value.\<close>
fun next_valid :: "series \<Rightarrow> (minute_key \<times> watts) option" where
  "next_valid [] = None"
| "next_valid ((k, Some v) # s) = Some (k, v)"
| "next_valid ((k, None) # s) = next_valid s"

text \<open>
  \<^verbatim>\<open>series.interpolate(method="time")\<close> with the defaults of pandas (direction forward, no
  limit): a NaN between two values is interpolated linearly in the index, the NaNs after
  the last value take that value, the NaNs before the first value stay.
\<close>
fun interpolate_from :: "(minute_key \<times> watts) option \<Rightarrow> series \<Rightarrow> series" where
  "interpolate_from prev [] = []"
| "interpolate_from prev ((k, Some v) # s) = (k, Some v) # interpolate_from (Some (k, v)) s"
| "interpolate_from prev ((k, None) # s) =
     (k, (case prev of
            None \<Rightarrow> None
          | Some (kp, vp) \<Rightarrow>
              (case next_valid s of
                 None \<Rightarrow> Some vp
               | Some (kn, vn) \<Rightarrow> Some (vp + (vn - vp) / of_int (kn - kp) * of_int (k - kp)))))
     # interpolate_from prev s"

definition interpolate_time :: "series \<Rightarrow> series" where
  "interpolate_time s = interpolate_from None s"

text \<open>\<^verbatim>\<open>series.dropna()\<close>\<close>
definition dropna :: "series \<Rightarrow> series" where
  "dropna s = filter (\<lambda>kv. snd kv \<noteq> None) s"

text \<open>The fill policy: \<^verbatim>\<open>if fill == "locf" ... elif fill == "interp" ... else\<close>.\<close>
definition fill_series :: "string \<Rightarrow> series \<Rightarrow> series" where
  "fill_series fill series =
     (if fill = ''locf'' then ffill series
      else if fill = ''interp'' then ffill (interpolate_time series)
      else dropna series)"

text \<open>The values of a Series that are not NaN: what \<^verbatim>\<open>sum()\<close> and \<^verbatim>\<open>mean()\<close> see.\<close>
definition valid_values :: "series \<Rightarrow> watts list" where
  "valid_values s = List.map_filter snd s"

text \<open>\<^verbatim>\<open>float((filled / 60000.0).sum())\<close>\<close>
definition energy_kwh :: "series \<Rightarrow> rat" where
  "energy_kwh filled = sum_list (map (\<lambda>w. w / 60000) (valid_values filled))"

text \<open>\<^verbatim>\<open>float(filled.mean())\<close>: NaN when no value is left.\<close>
definition mean_watts :: "series \<Rightarrow> rat option" where
  "mean_watts filled =
     (let vs = valid_values filled
      in if vs = [] then None else Some (sum_list vs / of_nat (length vs)))"

text \<open>Lines 203 to 235 of compute_energy: from \<^verbatim>\<open>per_min\<close> to the Result.\<close>
definition energy_of_buckets ::
  "bucketed \<Rightarrow> string \<Rightarrow> string \<Rightarrow> int \<Rightarrow> error + Result" where
  "energy_of_buckets per_min pc fill top_gaps =
     (let start = index_min per_min;
          stop = index_max per_min;
          full_idx = date_range start stop;
          series = reindex per_min full_idx
      in case build_gap_report full_idx series top_gaps of
           Inl e \<Rightarrow> Inl e
         | Inr report \<Rightarrow>
             (let filled = fill_series fill series
              in if filled = [] then Inl EmptyResultError
                 else Inr \<lparr>window_start = start,
                           window_end = stop,
                           minutes_total = length full_idx,
                           powercol = pc,
                           avg_watts = mean_watts filled,
                           total_kwh = energy_kwh filled,
                           gap_report = report\<rparr>))"

section \<open>DataFrames and the first half of compute_energy\<close>

text \<open>
  A cell of a DataFrame: text, a number, a timestamp (nanoseconds since the epoch, the
  instant, whatever the time zone it is shown in), or the missing value (NaN, NaT, None).
\<close>
datatype cell = Str string | Num rat | Tstamp int | NA

record frame =
  columns :: "string list"
  rows :: "(string \<Rightarrow> cell) list"

text \<open>
  DataFrames are objects: a store holds them, a variable holds a reference (a position of
  the store). \<^verbatim>\<open>df.copy()\<close>, \<^verbatim>\<open>dropna\<close> and \<^verbatim>\<open>sort_values\<close> make a new object,
  \<^verbatim>\<open>df[c] = ...\<close> changes the object the variable refers to.
\<close>
type_synonym store = "frame list"

definition alloc :: "store \<Rightarrow> frame \<Rightarrow> store \<times> nat" where
  "alloc st f = (st @ [f], length st)"

text \<open>\<^verbatim>\<open>df[c]\<close>\<close>
definition col :: "frame \<Rightarrow> string \<Rightarrow> cell list" where
  "col f c = map (\<lambda>r. r c) (rows f)"

text \<open>\<^verbatim>\<open>df[c] = vals\<close> on a frame, one value per row.\<close>
definition set_col :: "frame \<Rightarrow> string \<Rightarrow> cell list \<Rightarrow> frame" where
  "set_col f c vals =
     \<lparr>columns = (if c \<in> set (columns f) then columns f else columns f @ [c]),
      rows = map (\<lambda>rv. (fst rv)(c := snd rv)) (zip (rows f) vals)\<rparr>"

definition store_set_col :: "store \<Rightarrow> nat \<Rightarrow> string \<Rightarrow> cell list \<Rightarrow> store" where
  "store_set_col st r c vals = st[r := set_col (st ! r) c vals]"

text \<open>\<^verbatim>\<open>df.dropna(subset=cs)\<close>\<close>
definition dropna_subset :: "frame \<Rightarrow> string list \<Rightarrow> frame" where
  "dropna_subset f cs = f\<lparr>rows := filter (\<lambda>r. \<forall>c \<in> set cs. r c \<noteq> NA) (rows f)\<rparr>"

text \<open>The timestamp and the number in a cell of the working columns.\<close>
fun cell_time :: "cell \<Rightarrow> int" where
  "cell_time (Tstamp t) = t"
| "cell_time _ = 0"

fun cell_num :: "cell \<Rightarrow> rat" where
  "cell_num (Num x) = x"
| "cell_num _ = 0"

text \<open>\<^verbatim>\<open>df.sort_values(c)\<close> on a column of timestamps.\<close>
definition sort_values :: "frame \<Rightarrow> string \<Rightarrow> frame" where
  "sort_values f c = f\<lparr>rows := sort_key (\<lambda>r. cell_time (r c)) (rows f)\<rparr>"

definition ns_per_minute :: int where
  "ns_per_minute = 60000000000"

text \<open>\<^verbatim>\<open>.dt.floor("min")\<close> on one cell.\<close>
fun floor_minute :: "cell \<Rightarrow> cell" where
  "floor_minute (Tstamp t) = Tstamp (t div ns_per_minute * ns_per_minute)"
| "floor_minute c = c"

text \<open>The minute number of a floored timestamp.\<close>
definition minute_of :: "cell \<Rightarrow> minute_key" where
  "minute_of c = cell_time c div ns_per_minute"

definition mean :: "rat list \<Rightarrow> rat" where
  "mean xs = sum_list xs / of_nat (length xs)"

text \<open>\<^verbatim>\<open>df.groupby("_minute")["_p"].mean().sort_index()\<close>\<close>
definition groupby_mean :: "frame \<Rightarrow> bucketed" where
  "groupby_mean f =
     (let pairs = map (\<lambda>r. (minute_of (r ''_minute''), cell_num (r ''_p''))) (rows f);
          keys = sort (remdups (map fst pairs))
      in map (\<lambda>k. (k, mean (map snd (filter (\<lambda>p. fst p = k) pairs)))) keys)"

definition PREFERRED_POWER_COLS :: "string list" where
  "PREFERRED_POWER_COLS =
     [''watt'', ''watts'', ''power'', ''pwr'', ''power_w'', ''ipmi_watts'', ''kwh'', ''kw'']"

definition EXCLUDE_COLS :: "string set" where
  "EXCLUDE_COLS = {''ipmi_ip'', ''host'', ''hostname'', ''node'', ''machine'', ''serial'',
     ''model'', ''site'', ''rack'', ''row''}"

text \<open>\<^verbatim>\<open>c.lower()\<close> on the letters A to Z.\<close>
definition lower_char :: "char \<Rightarrow> char" where
  "lower_char c =
     (let n = (of_char c :: nat) in if 65 \<le> n \<and> n \<le> 90 then char_of (n + 32) else c)"

definition lower :: "string \<Rightarrow> string" where
  "lower s = map lower_char s"

text \<open>
  detect_power_col. \<^verbatim>\<open>to_numeric\<close> is \<^verbatim>\<open>pd.to_numeric(..., errors="coerce")\<close> on one cell.
  Sorting the candidates in reverse and taking the first gives the greatest pair
  \<^verbatim>\<open>(non_na, c)\<close>.
\<close>
definition detect_power_col :: "(cell \<Rightarrow> rat option) \<Rightarrow> frame \<Rightarrow> string \<Rightarrow> error + string" where
  "detect_power_col to_numeric df timecol =
     (let cols = filter (\<lambda>c. c \<noteq> timecol) (columns df)
      in if cols = [] then Inl AutoDetectionFailureError
         else
           (case concat (map (\<lambda>pref. filter (\<lambda>c. lower c = pref) cols) PREFERRED_POWER_COLS) of
              c # _ \<Rightarrow> Inr c
            | [] \<Rightarrow>
               (let candidates =
                      filter (\<lambda>nc. fst nc \<noteq> 0)
                        (map (\<lambda>c. (length (filter (\<lambda>x. to_numeric x \<noteq> None) (col df c)), c))
                           (filter (\<lambda>c. lower c \<notin> EXCLUDE_COLS) cols))
                in case rev (sort candidates) of
                     [] \<Rightarrow> Inl AutoDetectionFailureError
                   | nc # _ \<Rightarrow> Inr (snd nc))))"

text \<open>
  \<^verbatim>\<open>if powercol is None: powercol = detect_power_col(df, timecol)\<close>, else the check that
  the column exists.
\<close>
definition resolve_powercol ::
  "(cell \<Rightarrow> rat option) \<Rightarrow> frame \<Rightarrow> string \<Rightarrow> string option \<Rightarrow> error + string" where
  "resolve_powercol to_numeric df timecol pcol =
     (case pcol of
        None \<Rightarrow> detect_power_col to_numeric df timecol
      | Some pc \<Rightarrow> if pc \<notin> set (columns df) then Inl (MissingFieldError pc) else Inr pc)"

text \<open>The cells of the working columns \<^verbatim>\<open>_ts\<close> and \<^verbatim>\<open>_p\<close>.\<close>
definition time_cell :: "int option \<Rightarrow> cell" where
  "time_cell t = (case t of None \<Rightarrow> NA | Some x \<Rightarrow> Tstamp x)"

definition num_cell :: "rat option \<Rightarrow> cell" where
  "num_cell p = (case p of None \<Rightarrow> NA | Some x \<Rightarrow> Num x)"

text \<open>
  compute_energy. The caller's DataFrame is the object at reference \<open>df\<close> of the store;
  the function returns the store it leaves behind with its outcome. \<^verbatim>\<open>to_datetime\<close> is
  \<^verbatim>\<open>pd.to_datetime(..., utc=True, errors="coerce")\<close> on one cell and \<^verbatim>\<open>to_numeric\<close> is
  \<^verbatim>\<open>pd.to_numeric(..., errors="coerce")\<close>; both belong to pandas and are parameters.
  \<^verbatim>\<open>tz_convert\<close> keeps the instant, and the offset of the zone is taken to be a whole
  number of minutes, so the zone does not enter the computation.
\<close>
definition compute_energy ::
  "(cell \<Rightarrow> int option) \<Rightarrow> (cell \<Rightarrow> rat option) \<Rightarrow> store \<Rightarrow> nat \<Rightarrow> string \<Rightarrow> string option \<Rightarrow>
   string \<Rightarrow> string \<Rightarrow> int \<Rightarrow> store \<times> (error + Result)" where
  "compute_energy to_datetime to_numeric st df timecol pcol fill tz top_gaps =
     (if timecol \<notin> set (columns (st ! df)) then (st, Inl (MissingFieldError timecol))
      else
        (case resolve_powercol to_numeric (st ! df) timecol pcol of
           Inl e \<Rightarrow> (st, Inl e)
         | Inr pc \<Rightarrow>
            (let t = map to_datetime (col (st ! df) timecol)
             in if list_all (\<lambda>x. x = None) t then (st, Inl UnparsableTimestampsError)
                else
                  (let (st1, df1) = alloc st (st ! df);
                       st2 = store_set_col st1 df1 ''_ts'' (map time_cell t);
                       st3 = store_set_col st2 df1 ''_p''
                               (map (\<lambda>x. num_cell (to_numeric x)) (col (st2 ! df1) pc));
                       (st4, df2) = alloc st3 (dropna_subset (st3 ! df1) [''_ts'', ''_p'']);
                       (st5, df3) = alloc st4 (sort_values (st4 ! df2) ''_ts'')
                   in if rows (st5 ! df3) = [] then (st5, Inl EmptyInputError)
                      else
                        (let st6 = store_set_col st5 df3 ''_minute''
                                     (map floor_minute (col (st5 ! df3) ''_ts''));
                             per_min = groupby_mean (st6 ! df3)
                         in (st6, energy_of_buckets per_min pc fill top_gaps))))))"

section \<open>Vocabulary of the claims on compute_energy\<close>


text \<open>
  Parsers for the scenarios: a timestamp cell parses to its instant, a number cell to its
  number, anything else fails to parse.
\<close>
fun scenario_to_datetime :: "cell \<Rightarrow> int option" where
  "scenario_to_datetime (Tstamp t) = Some t"
| "scenario_to_datetime _ = None"

fun scenario_to_numeric :: "cell \<Rightarrow> rat option" where
  "scenario_to_numeric (Num x) = Some x"
| "scenario_to_numeric _ = None"

text \<open>A row with the columns \<^verbatim>\<open>_time\<close> and \<^verbatim>\<open>power\<close>.\<close>
definition mk_row :: "cell \<Rightarrow> cell \<Rightarrow> string \<Rightarrow> cell" where
  "mk_row t p = (\<lambda>c. if c = ''_time'' then t else if c = ''power'' then p else NA)"

text \<open>A frame of such rows.\<close>
definition mk_frame :: "(cell \<times> cell) list \<Rightarrow> frame" where
  "mk_frame tps = \<lparr>columns = [''_time'', ''power''], rows = map (\<lambda>tp. mk_row (fst tp) (snd tp)) tps\<rparr>"

text \<open>A sample at the start of minute \<open>m\<close> with \<open>w\<close> Watts.\<close>
definition sample :: "int \<Rightarrow> rat \<Rightarrow> cell \<times> cell" where
  "sample m w = (Tstamp (m * ns_per_minute), Num w)"

text \<open>The rows of the working copy after the columns \<^verbatim>\<open>_ts\<close> and \<^verbatim>\<open>_p\<close> were written.\<close>
definition working_rows ::
  "(cell \<Rightarrow> int option) \<Rightarrow> (cell \<Rightarrow> rat option) \<Rightarrow> string \<Rightarrow> string \<Rightarrow>
   (string \<Rightarrow> cell) list \<Rightarrow> (string \<Rightarrow> cell) list" where
  "working_rows to_datetime to_numeric timecol pc rs =
     map (\<lambda>r. (r(''_ts'' := time_cell (to_datetime (r timecol))))
                 (''_p'' := num_cell (to_numeric ((r(''_ts'' := time_cell (to_datetime (r timecol)))) pc))))
       rs"

text \<open>The rows left by \<^verbatim>\<open>dropna\<close> and \<^verbatim>\<open>sort_values\<close>.\<close>
definition valid_sorted_rows ::
  "(cell \<Rightarrow> int option) \<Rightarrow> (cell \<Rightarrow> rat option) \<Rightarrow> string \<Rightarrow> string \<Rightarrow>
   (string \<Rightarrow> cell) list \<Rightarrow> (string \<Rightarrow> cell) list" where
  "valid_sorted_rows to_datetime to_numeric timecol pc rs =
     sort_key (\<lambda>r. cell_time (r ''_ts''))
       (filter (\<lambda>r. r ''_ts'' \<noteq> NA \<and> r ''_p'' \<noteq> NA)
          (working_rows to_datetime to_numeric timecol pc rs))"

text \<open>
  The input of the undercount scenario: one sample of 120 W at each of the minutes
  0, 1, 2, 7, 8, 9, so that the minutes 3 to 6 of the ten-minute window are missing.
\<close>
definition undercount_frame :: frame where
  "undercount_frame = mk_frame [sample 0 120, sample 1 120, sample 2 120,
                                sample 7 120, sample 8 120, sample 9 120]"

section \<open>The timeline\<close>








section \<open>The fill policies\<close>

lemma ffill_from_keys: "map fst (ffill_from p s) = map fst s"
  by (induction p s rule: ffill_from.induct) auto

lemma ffill_from_full: "p \<noteq> None \<Longrightarrow> kv \<in> set (ffill_from p s) \<Longrightarrow> snd kv \<noteq> None"
  by (induction p s rule: ffill_from.induct) auto

lemma ffill_full:
  assumes "s \<noteq> []" and "snd (hd s) \<noteq> None"
  shows "\<forall>kv \<in> set (ffill s). snd kv \<noteq> None"
proof -
  obtain k v rest where s: "s = (k, Some v) # rest"
    using assms by (cases s) auto
  have "snd kv \<noteq> None" if "kv \<in> set (ffill_from (Some v) rest)" for kv
    using ffill_from_full [of "Some v" kv rest] that by simp
  then show ?thesis by (auto simp: ffill_def s)
qed

lemma interpolate_from_keys: "map fst (interpolate_from p s) = map fst s"
  by (induction p s rule: interpolate_from.induct) auto

lemma interpolate_from_full:
  "p \<noteq> None \<Longrightarrow> kv \<in> set (interpolate_from p s) \<Longrightarrow> snd kv \<noteq> None"
  by (induction p s rule: interpolate_from.induct) (auto split: option.splits)

lemma interpolate_full:
  assumes "s \<noteq> []" and "snd (hd s) \<noteq> None"
  shows "\<forall>kv \<in> set (interpolate_time s). snd kv \<noteq> None"
proof -
  obtain k v rest where s: "s = (k, Some v) # rest"
    using assms by (cases s) auto
  have "snd kv \<noteq> None" if "kv \<in> set (interpolate_from (Some (k, v)) rest)" for kv
    using interpolate_from_full [of "Some (k, v)" kv rest] that by simp
  then show ?thesis by (auto simp: interpolate_time_def s)
qed

lemma ffill_from_id: "\<forall>kv \<in> set s. snd kv \<noteq> None \<Longrightarrow> ffill_from p s = s"
  by (induction p s rule: ffill_from.induct) auto

text \<open>
  Claim C4. For a Series on the timeline whose first and last entries have a value, the
  policies \<^verbatim>\<open>locf\<close> and \<^verbatim>\<open>interp\<close> give a filled Series with the same index and no NaN
  left; the remaining policy (drop) gives a Series whose index is part of the timeline,
  also without NaN.
\<close>
theorem C4_fill_totality:
  assumes "series \<noteq> []" and "snd (hd series) \<noteq> None" and "snd (last series) \<noteq> None"
  shows "map fst (fill_series ''locf'' series) = map fst series
       \<and> (\<forall>kv \<in> set (fill_series ''locf'' series). snd kv \<noteq> None)
       \<and> map fst (fill_series ''interp'' series) = map fst series
       \<and> (\<forall>kv \<in> set (fill_series ''interp'' series). snd kv \<noteq> None)
       \<and> (fill \<noteq> ''locf'' \<and> fill \<noteq> ''interp'' \<longrightarrow>
            set (map fst (fill_series fill series)) \<subseteq> set (map fst series)
          \<and> (\<forall>kv \<in> set (fill_series fill series). snd kv \<noteq> None))"
proof -
  have 1: "map fst (fill_series ''locf'' series) = map fst series"
    by (simp add: fill_series_def ffill_def ffill_from_keys)
  have 2: "\<forall>kv \<in> set (fill_series ''locf'' series). snd kv \<noteq> None"
    using ffill_full [OF assms(1,2)] by (simp add: fill_series_def)
  have i: "\<forall>kv \<in> set (interpolate_time series). snd kv \<noteq> None"
    using assms(1,2) by (rule interpolate_full)
  have e: "fill_series ''interp'' series = interpolate_time series"
    using ffill_from_id [OF i] by (simp add: fill_series_def ffill_def)
  have 3: "map fst (fill_series ''interp'' series) = map fst series"
    unfolding e by (simp add: interpolate_time_def interpolate_from_keys)
  have 4: "\<forall>kv \<in> set (fill_series ''interp'' series). snd kv \<noteq> None"
    unfolding e using i .
  have 5: "fill \<noteq> ''locf'' \<and> fill \<noteq> ''interp'' \<longrightarrow>
            set (map fst (fill_series fill series)) \<subseteq> set (map fst series)
          \<and> (\<forall>kv \<in> set (fill_series fill series). snd kv \<noteq> None)"
    by (auto simp: fill_series_def dropna_def)
  from 1 2 3 4 5 show ?thesis by blast
qed

theorem C4_fill_totality_witness:
  "map fst (fill_series ''locf'' [(0, Some 1), (1, None), (2, Some 3)]) = [0, 1, 2]
   \<and> map fst (fill_series ''interp'' [(0, Some 1), (1, None), (2, Some 3)]) = [0, 1, 2]
   \<and> set (map fst (fill_series ''none'' [(0, Some 1), (1, None), (2, Some 3)])) \<subseteq> {0, 1, 2}"
  using C4_fill_totality [of "[(0, Some 1), (1, None), (2, Some 3)]" "''none''"]
  by simp

section \<open>The gap scan\<close>

lemma scan_run_ge: "j \<le> scan_run mm j"
  by (induction mm j rule: scan_run.induct) (subst scan_run.simps, auto)

lemma scan_run_le: "j \<le> length mm \<Longrightarrow> scan_run mm j \<le> length mm"
  by (induction mm j rule: scan_run.induct) (subst scan_run.simps, auto)

lemma scan_run_step: "j < length mm \<Longrightarrow> mm ! j \<Longrightarrow> scan_run mm j = scan_run mm (j + 1)"
  by (subst scan_run.simps) simp

lemma scan_run_stop: "\<not> (j < length mm \<and> mm ! j) \<Longrightarrow> scan_run mm j = j"
  by (subst scan_run.simps) auto

lemma scan_run_all: "j \<le> k \<Longrightarrow> k < scan_run mm j \<Longrightarrow> mm ! k"
proof (induction mm j rule: scan_run.induct)
  case (1 mm j)
  show ?case
  proof (cases "j < length mm \<and> mm ! j")
    case True
    then have eq: "scan_run mm j = scan_run mm (j + 1)" by (simp add: scan_run_step)
    show ?thesis
    proof (cases "k = j")
      case True
      with \<open>j < length mm \<and> mm ! j\<close> show ?thesis by simp
    next
      case False
      with "1.prems" have "j + 1 \<le> k" by simp
      with "1.IH" True "1.prems" eq show ?thesis by simp
    qed
  next
    case False
    then have "scan_run mm j = j" by (rule scan_run_stop)
    with "1.prems" show ?thesis by simp
  qed
qed

lemma upto_as_map: "i \<le> j \<Longrightarrow> [a + int i..a + int j - 1] = map (\<lambda>k. a + int k) [i..<j]"
proof (induction j)
  case 0
  then show ?case by simp
next
  case (Suc j)
  show ?case
  proof (cases "i = Suc j")
    case True
    then show ?thesis by simp
  next
    case False
    with Suc.prems have le: "i \<le> j" by simp
    have "[a + int i..a + int (Suc j) - 1] = [a + int i..a + int j - 1] @ [a + int j]"
      using le upto_rec2 [of "a + int i" "a + int j"] by simp
    with Suc.IH [OF le] le show ?thesis by simp
  qed
qed

lemma filter_run:
  assumes "i \<le> j" and "j \<le> n" and "\<forall>k. i \<le> k \<and> k < j \<longrightarrow> P k"
  shows "filter P [i..<n] = [i..<j] @ filter P [j..<n]"
proof -
  have "[i..<n] = [i..<j] @ [j..<n]"
    using assms(1,2) by (metis le_Suc_ex upt_add_eq_append)
  moreover have "filter P [i..<j] = [i..<j]"
    using assms(3) by (simp add: filter_id_conv)
  ultimately show ?thesis by simp
qed


lemma gaps_loop_spec:
  assumes "length full_idx = length mm"
    and "\<forall>k < length mm. full_idx ! k = s0 + int k"
    and "i \<le> length mm"
  shows "\<exists>gs. gaps_loop full_idx mm i acc = Inr (acc @ gs)
       \<and> concat (map gap_minutes gs) = map (\<lambda>k. s0 + int k) (filter (\<lambda>k. mm ! k) [i..<length mm])
       \<and> (\<forall>g \<in> set gs. 1 \<le> gap_len g \<and> gap_end g = gap_start g + int (gap_len g) - 1
              \<and> s0 + int i \<le> gap_start g \<and> gap_end g < s0 + int (length mm))
       \<and> sorted_wrt (\<lambda>g h. gap_end g < gap_start h) gs"
  using assms
proof (induction full_idx mm i acc rule: gaps_loop.induct)
  case (1 full_idx mm i acc)
  note len = "1.prems"(1) and tl = "1.prems"(2)
  show ?case
  proof (cases "i < length mm")
    case False
    with "1.prems"(3) have "i = length mm" by simp
    then have "gaps_loop full_idx mm i acc = Inr acc"
      by (subst gaps_loop.simps) simp
    with \<open>i = length mm\<close> show ?thesis by simp
  next
    case lt: True
    show ?thesis
    proof (cases "mm ! i")
      case False
      have eq: "gaps_loop full_idx mm i acc = gaps_loop full_idx mm (i + 1) acc"
        using lt False by (subst gaps_loop.simps) simp
      from lt have "i + 1 \<le> length mm" by simp
      from "1.IH"(2) [OF lt False len tl this]
      obtain gs where gs: "gaps_loop full_idx mm (i + 1) acc = Inr (acc @ gs)"
        "concat (map gap_minutes gs)
           = map (\<lambda>k. s0 + int k) (filter (\<lambda>k. mm ! k) [i + 1..<length mm])"
        "\<forall>g \<in> set gs. 1 \<le> gap_len g \<and> gap_end g = gap_start g + int (gap_len g) - 1
              \<and> s0 + int (i + 1) \<le> gap_start g \<and> gap_end g < s0 + int (length mm)"
        "sorted_wrt (\<lambda>g h. gap_end g < gap_start h) gs"
        by blast
      have "filter (\<lambda>k. mm ! k) [i..<length mm] = filter (\<lambda>k. mm ! k) [i + 1..<length mm]"
        using lt False by (simp add: upt_conv_Cons)
      with gs eq show ?thesis by auto
    next
      case True
      define j where "j = scan_run mm i"
      have ij: "i < j"
        using scan_run_step [OF lt True] scan_run_ge [of "i + 1" mm] by (simp add: j_def)
      have jn: "j \<le> length mm"
        using scan_run_le [of i mm] lt by (simp add: j_def)
      have run: "\<forall>k. i \<le> k \<and> k < j \<longrightarrow> mm ! k"
        using scan_run_all [of i _ mm] by (simp add: j_def)
      have gi: "index_get full_idx i = Inr (s0 + int i)"
        using lt len tl by (simp add: index_get_def)
      have gj: "index_get full_idx (j - 1) = Inr (s0 + int (j - 1))"
        using ij jn len tl by (simp add: index_get_def)
      define g :: gap where "g = (s0 + int i, s0 + int (j - 1), j - i)"
      have eq: "gaps_loop full_idx mm i acc = gaps_loop full_idx mm j (acc @ [g])"
        using lt True gi gj by (subst gaps_loop.simps) (simp add: j_def [symmetric] g_def)
      from "1.IH"(1) [OF lt True gi [unfolded j_def] gj [unfolded j_def] len tl jn [unfolded j_def]]
      obtain gs where gs: "gaps_loop full_idx mm j (acc @ [g]) = Inr ((acc @ [g]) @ gs)"
        "concat (map gap_minutes gs)
           = map (\<lambda>k. s0 + int k) (filter (\<lambda>k. mm ! k) [j..<length mm])"
        "\<forall>g \<in> set gs. 1 \<le> gap_len g \<and> gap_end g = gap_start g + int (gap_len g) - 1
              \<and> s0 + int j \<le> gap_start g \<and> gap_end g < s0 + int (length mm)"
        "sorted_wrt (\<lambda>g h. gap_end g < gap_start h) gs"
        unfolding j_def [symmetric] g_def [symmetric] by blast
      have e: "s0 + int (j - 1) = s0 + int j - 1"
        using ij by (simp add: of_nat_diff)
      have "gap_minutes g = [s0 + int i..s0 + int j - 1]"
        unfolding gap_minutes_def g_def gap_start_def gap_end_def fst_conv snd_conv e ..
      also have "\<dots> = map (\<lambda>k. s0 + int k) [i..<j]"
        by (rule upto_as_map) (use ij in simp)
      finally have gm: "gap_minutes g = map (\<lambda>k. s0 + int k) [i..<j]" .
      have fl: "filter (\<lambda>k. mm ! k) [i..<length mm] = [i..<j] @ filter (\<lambda>k. mm ! k) [j..<length mm]"
        using ij jn run by (intro filter_run) auto
      have c1: "gaps_loop full_idx mm i acc = Inr (acc @ (g # gs))"
        using eq gs(1) by simp
      have c2: "concat (map gap_minutes (g # gs))
                  = map (\<lambda>k. s0 + int k) (filter (\<lambda>k. mm ! k) [i..<length mm])"
        using gm gs(2) fl by simp
      have gprops: "1 \<le> gap_len g \<and> gap_end g = gap_start g + int (gap_len g) - 1
              \<and> s0 + int i \<le> gap_start g \<and> gap_end g < s0 + int (length mm)"
        using ij jn by (auto simp: g_def gap_len_def gap_start_def gap_end_def of_nat_diff)
      have c3: "\<forall>h \<in> set (g # gs). 1 \<le> gap_len h \<and> gap_end h = gap_start h + int (gap_len h) - 1
              \<and> s0 + int i \<le> gap_start h \<and> gap_end h < s0 + int (length mm)"
        using gprops gs(3) ij by auto
      have "gap_end g < gap_start h" if "h \<in> set gs" for h
        using gs(3) that ij by (auto simp: g_def gap_end_def)
      then have c4: "sorted_wrt (\<lambda>g h. gap_end g < gap_start h) (g # gs)"
        using gs(4) by simp
      from c1 c2 c3 c4 show ?thesis by blast
    qed
  qed
qed

section \<open>Gap coverage\<close>

lemma date_range_nth:
  "k < length (date_range start stop) \<Longrightarrow> date_range start stop ! k = start + int k"
  unfolding date_range_def by (simp add: nth_upto)

lemma timeline_as_map:
  assumes "\<forall>k < length xs. xs ! k = s0 + int k"
  shows "xs = map (\<lambda>k. s0 + int k) [0..<length xs]"
  using assms by (intro nth_equalityI) auto

lemma missing_minutes_index:
  assumes len: "length full_idx = length series"
    and tl: "\<forall>k < length series. full_idx ! k = s0 + int k"
  shows "missing_minutes full_idx series
           = map (\<lambda>k. s0 + int k) (filter (\<lambda>k. isna series ! k) [0..<length series])"
proof -
  let ?n = "length series"
  have a: "full_idx = map (\<lambda>k. s0 + int k) [0..<?n]"
    using timeline_as_map [of full_idx s0] len tl by simp
  have b: "isna series = map (\<lambda>k. isna series ! k) [0..<?n]"
    by (intro nth_equalityI) (auto simp: isna_def)
  have "zip full_idx (isna series)
          = map (\<lambda>k. (s0 + int k, isna series ! k)) [0..<?n]"
    by (subst a, subst b) (simp add: zip_map_map zip_same_conv_map)
  then show ?thesis
    by (simp add: missing_minutes_def filter_map o_def)
qed

lemma count_missing_index:
  "length (filter (\<lambda>b. b) mm) = length (filter (\<lambda>k. mm ! k) [0..<length mm])"
proof -
  have "mm = map (\<lambda>k. mm ! k) [0..<length mm]"
    by (intro nth_equalityI) auto
  then have "filter (\<lambda>b. b) mm = map (\<lambda>k. mm ! k) (filter (\<lambda>k. mm ! k) [0..<length mm])"
    by (metis (no_types, lifting) filter_map o_def filter_cong)
  then show ?thesis by (metis length_map)
qed

lemma gap_minutes_length:
  "1 \<le> gap_len g \<Longrightarrow> gap_end g = gap_start g + int (gap_len g) - 1
     \<Longrightarrow> length (gap_minutes g) = gap_len g"
  by (simp add: gap_minutes_def)

lemma sum_gap_len:
  "\<forall>g \<in> set gs. 1 \<le> gap_len g \<and> gap_end g = gap_start g + int (gap_len g) - 1
     \<Longrightarrow> sum_list (map gap_len gs) = length (concat (map gap_minutes gs))"
  by (induction gs) (auto simp: gap_minutes_length)

lemma scenario_gaps: "gaps_loop [0, 1, 2, 3, 4, 5, 6, 7, 8, 9] (isna gap_scenario) 0 [] = Inr [(3, 6, 4)]"
  by (simp add: gap_scenario_def isna_def gaps_loop.simps scan_run.simps index_get_def)


lemma scenario_range: "date_range 0 9 = [0, 1, 2, 3, 4, 5, 6, 7, 8, 9]"
  unfolding date_range_def by code_simp

lemma set_py_slice_to: "set (py_slice_to xs n) \<subseteq> set xs"
  by (auto simp: py_slice_to_def dest: in_set_takeD)

lemma set_py_sorted_reverse: "set (py_sorted_reverse f xs) = set xs"
  by (simp add: py_sorted_reverse_def)

lemma build_gap_report_Inr:
  assumes "gaps_loop full_idx (isna series) 0 [] = Inr gaps"
  shows "\<exists>r. build_gap_report full_idx series top_n = Inr r
           \<and> gap_count r = length gaps
           \<and> minutes_missing r = length (filter (\<lambda>b. b) (isna series))
           \<and> bucket_counts r = fst (tally_gaps gaps (zero_dict, zero_dict))
           \<and> bucket_minutes r = snd (tally_gaps gaps (zero_dict, zero_dict))
           \<and> largest_gaps r = py_slice_to (py_sorted_reverse gap_len gaps) top_n"
  using assms by (simp add: build_gap_report_def Let_def)

lemma gaps_of_timeline:
  assumes len: "length full_idx = length series"
    and tl: "full_idx = date_range start stop"
  shows "\<exists>gaps. gaps_loop full_idx (isna series) 0 [] = Inr gaps
       \<and> concat (map gap_minutes gaps) = missing_minutes full_idx series
       \<and> (\<forall>g \<in> set gaps. 1 \<le> gap_len g \<and> gap_end g = gap_start g + int (gap_len g) - 1
              \<and> start \<le> gap_start g \<and> gap_end g < start + int (length series))
       \<and> sorted_wrt (\<lambda>g h. gap_end g < gap_start h) gaps"
proof -
  have n: "length (isna series) = length series" by (simp add: isna_def)
  have nth: "\<forall>k < length (isna series). full_idx ! k = start + int k"
    using len tl date_range_nth [of _ start stop] by (simp add: n)
  from gaps_loop_spec [of full_idx "isna series" start 0 "[]"] len nth n
  obtain gs where gs: "gaps_loop full_idx (isna series) 0 [] = Inr gs"
    "concat (map gap_minutes gs)
       = map (\<lambda>k. start + int k) (filter (\<lambda>k. isna series ! k) [0..<length (isna series)])"
    "\<forall>g \<in> set gs. 1 \<le> gap_len g \<and> gap_end g = gap_start g + int (gap_len g) - 1
              \<and> start + int 0 \<le> gap_start g \<and> gap_end g < start + int (length (isna series))"
    "sorted_wrt (\<lambda>g h. gap_end g < gap_start h) gs"
    by auto
  have nth': "\<forall>k < length series. full_idx ! k = start + int k"
    using nth by (simp add: n)
  have "concat (map gap_minutes gs) = missing_minutes full_idx series"
    unfolding gs(2) missing_minutes_index [OF len nth'] n ..
  with gs show ?thesis by (auto simp: n)
qed


lemma scenario_report:
  "build_gap_report (date_range 0 9) gap_scenario 10 =
     Inr \<lparr>gap_count = 1, minutes_missing = 4, missing_pct = 40,
          bucket_counts = [(''1-2'', 0), (''3-15'', 1), (''16-120'', 0), (''>120'', 0)],
          bucket_minutes = [(''1-2'', 0), (''3-15'', 4), (''16-120'', 0), (''>120'', 0)],
          largest_gaps = [(3, 6, 4)]\<rparr>"
proof -
  have m: "length (filter (\<lambda>b. b) (isna gap_scenario)) = 4"
    by (simp add: gap_scenario_def isna_def)
  have t: "tally_gaps [(3, 6, 4)] (zero_dict, zero_dict)
        = ([(''1-2'', 0), (''3-15'', 1), (''16-120'', 0), (''>120'', 0)],
           [(''1-2'', 0), (''3-15'', 4), (''16-120'', 0), (''>120'', 0)])"
    by (simp add: zero_dict_def buckets_def gap_len_def)
  have l: "py_slice_to (py_sorted_reverse gap_len [(3, 6, 4)]) 10 = [(3, 6, 4)]"
    by (simp add: py_slice_to_def py_sorted_reverse_def)
  show ?thesis
    unfolding build_gap_report_def Let_def scenario_range scenario_gaps m sum.case t l
    by simp
qed

text \<open>
  Claim C3. On a timeline, the gaps found by the scan of build_gap_report, each expanded
  to the minutes from its start to its end and listed in order, are exactly the missing
  minutes of the timeline in order: no minute is claimed twice and none is left out. The
  lengths of the gaps add up to \<^verbatim>\<open>minutes_missing\<close>. In the scenario of ten minutes with
  values at 0, 1, 2, 7, 8, 9 there is one gap, from minute 3 to minute 6 with length 4,
  and \<^verbatim>\<open>missing_pct\<close> is 40.
\<close>
theorem C3_gap_coverage:
  assumes "length full_idx = length series" and "full_idx = date_range start stop"
  shows "(\<exists>gaps r. gaps_loop full_idx (isna series) 0 [] = Inr gaps
            \<and> build_gap_report full_idx series top_n = Inr r
            \<and> gap_count r = length gaps
            \<and> concat (map gap_minutes gaps) = missing_minutes full_idx series
            \<and> distinct (concat (map gap_minutes gaps))
            \<and> sum_list (map gap_len gaps) = minutes_missing r)
       \<and> (\<exists>r. build_gap_report (date_range 0 9) gap_scenario 10 = Inr r
            \<and> gap_count r = 1 \<and> largest_gaps r = [(3, 6, 4)]
            \<and> minutes_missing r = 4 \<and> missing_pct r = 40)"
proof -
  from gaps_of_timeline [OF assms]
  obtain gaps where g: "gaps_loop full_idx (isna series) 0 [] = Inr gaps"
    "concat (map gap_minutes gaps) = missing_minutes full_idx series"
    "\<forall>g \<in> set gaps. 1 \<le> gap_len g \<and> gap_end g = gap_start g + int (gap_len g) - 1
              \<and> start \<le> gap_start g \<and> gap_end g < start + int (length series)"
    by blast
  from build_gap_report_Inr [OF g(1), of top_n]
  obtain r where r: "build_gap_report full_idx series top_n = Inr r"
    "gap_count r = length gaps"
    "minutes_missing r = length (filter (\<lambda>b. b) (isna series))"
    by blast
  have nth: "\<forall>k < length series. full_idx ! k = start + int k"
    using assms date_range_nth [of _ start stop] by simp
  have mi: "missing_minutes full_idx series
           = map (\<lambda>k. start + int k) (filter (\<lambda>k. isna series ! k) [0..<length series])"
    using assms(1) nth by (rule missing_minutes_index)
  have d: "distinct (concat (map gap_minutes gaps))"
    unfolding g(2) mi by (simp add: distinct_map inj_on_def)
  have "sum_list (map gap_len gaps) = length (concat (map gap_minutes gaps))"
    using g(3) by (intro sum_gap_len) blast
  also have "\<dots> = length (filter (\<lambda>k. isna series ! k) [0..<length series])"
    unfolding g(2) mi by simp
  also have "\<dots> = minutes_missing r"
    using count_missing_index [of "isna series"] r(3) by (simp add: isna_def)
  finally have s: "sum_list (map gap_len gaps) = minutes_missing r" .
  have sc: "\<exists>r. build_gap_report (date_range 0 9) gap_scenario 10 = Inr r
            \<and> gap_count r = 1 \<and> largest_gaps r = [(3, 6, 4)]
            \<and> minutes_missing r = 4 \<and> missing_pct r = 40"
    by (simp add: scenario_report)
  from g(1,2) r(1,2) d s sc show ?thesis by blast
qed

theorem C3_gap_coverage_witness:
  "length (date_range 0 9) = length gap_scenario
   \<and> (\<exists>gaps r. gaps_loop (date_range 0 9) (isna gap_scenario) 0 [] = Inr gaps
            \<and> build_gap_report (date_range 0 9) gap_scenario 10 = Inr r
            \<and> concat (map gap_minutes gaps) = missing_minutes (date_range 0 9) gap_scenario
            \<and> sum_list (map gap_len gaps) = minutes_missing r)"
proof -
  have h: "length (date_range 0 9) = length gap_scenario"
    by (simp add: scenario_range gap_scenario_def)
  from C3_gap_coverage [OF h refl, of 10] h show ?thesis by blast
qed

section \<open>Consistency of the gaps\<close>

text \<open>
  Claim C10. On a timeline, every gap the scan of build_gap_report finds (the reported
  \<^verbatim>\<open>largest_gaps\<close> are among them) has length at least 1, its end is its start plus
  (length - 1) minutes, and its start and its end are entries of \<^verbatim>\<open>full_idx\<close>.
\<close>
theorem C10_gap_consistent:
  assumes "length full_idx = length series" and "full_idx = date_range start stop"
    and "build_gap_report full_idx series top_n = Inr r"
  shows "\<exists>gaps. gaps_loop full_idx (isna series) 0 [] = Inr gaps
           \<and> set (largest_gaps r) \<subseteq> set gaps
           \<and> (\<forall>g \<in> set gaps. 1 \<le> gap_len g
                  \<and> gap_end g = gap_start g + (int (gap_len g) - 1)
                  \<and> gap_start g \<in> set full_idx \<and> gap_end g \<in> set full_idx)"
proof -
  from gaps_of_timeline [OF assms(1,2)]
  obtain gaps where g: "gaps_loop full_idx (isna series) 0 [] = Inr gaps"
    "\<forall>g \<in> set gaps. 1 \<le> gap_len g \<and> gap_end g = gap_start g + int (gap_len g) - 1
              \<and> start \<le> gap_start g \<and> gap_end g < start + int (length series)"
    by blast
  from build_gap_report_Inr [OF g(1), of top_n] assms(3)
  have "largest_gaps r = py_slice_to (py_sorted_reverse gap_len gaps) top_n" by auto
  then have sub: "set (largest_gaps r) \<subseteq> set gaps"
    using set_py_slice_to [of "py_sorted_reverse gap_len gaps" top_n]
    by (simp add: set_py_sorted_reverse)
  have n: "int (length series) = (if start \<le> stop then stop - start + 1 else 0)"
    using assms(1,2) by (auto simp: date_range_def)
  have "1 \<le> gap_len h \<and> gap_end h = gap_start h + (int (gap_len h) - 1)
          \<and> gap_start h \<in> set full_idx \<and> gap_end h \<in> set full_idx"
    if "h \<in> set gaps" for h
  proof -
    from g(2) that have p: "1 \<le> gap_len h" "gap_end h = gap_start h + int (gap_len h) - 1"
      "start \<le> gap_start h" "gap_end h < start + int (length series)" by auto
    from p n have "start \<le> stop" by (auto split: if_splits)
    with p n show ?thesis by (auto simp: assms(2) date_range_def)
  qed
  with g(1) sub show ?thesis by blast
qed

theorem C10_gap_consistent_witness:
  "length (date_range 0 9) = length gap_scenario
   \<and> (\<exists>gaps. gaps_loop (date_range 0 9) (isna gap_scenario) 0 [] = Inr gaps
        \<and> (\<forall>g \<in> set gaps. 1 \<le> gap_len g \<and> gap_end g = gap_start g + (int (gap_len g) - 1)
              \<and> gap_start g \<in> set (date_range 0 9) \<and> gap_end g \<in> set (date_range 0 9)))"
proof -
  have h: "length (date_range 0 9) = length gap_scenario"
    by (simp add: scenario_range gap_scenario_def)
  from C10_gap_consistent [OF h refl scenario_report] h show ?thesis by blast
qed

section \<open>The largest gaps\<close>





lemma py_sorted_reverse_ties:
  "py_sorted_reverse gap_len [(1, 1, 1), (3, 4, 2), (6, 6, 1)] = [(3, 4, 2), (1, 1, 1), (6, 6, 1)]"
  by (simp add: py_sorted_reverse_def gap_len_def)



section \<open>The length buckets\<close>














lemma long_gap_length: "length (long_gap n) = n + 2"
  by (simp add: long_gap_def del: upt_Suc)





section \<open>The caller's DataFrame\<close>

lemma take_alloc: "n \<le> length st \<Longrightarrow> take n (fst (alloc st f)) = take n st"
  by (simp add: alloc_def)

lemma take_store_set_col: "n \<le> r \<Longrightarrow> take n (store_set_col st r c vals) = take n st"
  by (simp add: store_set_col_def)

lemma compute_energy_store:
  "take (length st) (fst (compute_energy to_datetime to_numeric st df timecol pcol fill tz top_gaps)) = st"
  unfolding compute_energy_def alloc_def store_set_col_def
  by (simp add: Let_def split: sum.split)

text \<open>
  Claim C9. compute_energy leaves the caller's DataFrame as it was, whether it returns a
  Result or fails: the object at the caller's reference is the same after the call, and
  so is every object the store held before the call. The working columns are written to
  the copy.
\<close>
theorem C9_input_frame_unchanged:
  assumes "df < length st"
  shows "fst (compute_energy to_datetime to_numeric st df timecol pcol fill tz top_gaps) ! df = st ! df
       \<and> take (length st)
            (fst (compute_energy to_datetime to_numeric st df timecol pcol fill tz top_gaps)) = st"
proof -
  let ?st' = "fst (compute_energy to_datetime to_numeric st df timecol pcol fill tz top_gaps)"
  have t: "take (length st) ?st' = st" by (rule compute_energy_store)
  have "?st' ! df = take (length st) ?st' ! df" using assms by simp
  with t show ?thesis by simp
qed


theorem C9_input_frame_unchanged_witness:
  "(0::nat) < length [mk_frame [sample 0 120]]
   \<and> fst (compute_energy scenario_to_datetime scenario_to_numeric [mk_frame [sample 0 120]] 0
            ''_time'' (Some ''power'') ''locf'' ''UTC'' 10) ! 0 = mk_frame [sample 0 120]"
  using C9_input_frame_unchanged [of 0 "[mk_frame [sample 0 120]]" scenario_to_datetime
      scenario_to_numeric "''_time''" "Some ''power''" "''locf''" "''UTC''" 10]
  by simp

section \<open>The outcome of compute_energy\<close>

lemma set_col_rows: "rows (set_col f c (map g (rows f))) = map (\<lambda>r. r(c := g r)) (rows f)"
  by (simp add: set_col_def zip_map2 zip_same_conv_map o_def)

lemma groupby_mean_rows: "rows f = rows g \<Longrightarrow> groupby_mean f = groupby_mean g"
  by (simp add: groupby_mean_def)

lemma working_copy_rows:
  "rows (set_col (set_col f ''_ts'' (map time_cell (map td (col f timecol)))) ''_p''
           (map (\<lambda>x. num_cell (tn x))
              (col (set_col f ''_ts'' (map time_cell (map td (col f timecol)))) pc)))
     = working_rows td tn timecol pc (rows f)"
proof -
  let ?f1 = "set_col f ''_ts'' (map time_cell (map td (col f timecol)))"
  have 1: "rows ?f1 = map (\<lambda>r. r(''_ts'' := time_cell (td (r timecol)))) (rows f)"
    using set_col_rows [of f "''_ts''" "\<lambda>r. time_cell (td (r timecol))"]
    by (simp add: col_def o_def)
  have "rows (set_col ?f1 ''_p'' (map (\<lambda>x. num_cell (tn x)) (col ?f1 pc)))
          = map (\<lambda>r. r(''_p'' := num_cell (tn (r pc)))) (rows ?f1)"
    using set_col_rows [of ?f1 "''_p''" "\<lambda>r. num_cell (tn (r pc))"]
    by (simp add: col_def o_def)
  then show ?thesis
    unfolding 1 by (simp add: working_rows_def o_def)
qed


lemma sorted_frame_rows:
  assumes "rows F = working_rows td tn timecol pc rs"
  shows "rows (sort_values (dropna_subset F [''_ts'', ''_p'']) ''_ts'')
           = valid_sorted_rows td tn timecol pc rs"
  using assms by (simp add: sort_values_def dropna_subset_def valid_sorted_rows_def)

lemma minute_frame_buckets:
  "groupby_mean (set_col G ''_minute'' (map floor_minute (col G ''_ts'')))
     = groupby_mean \<lparr>columns = [], rows = map (\<lambda>r. r(''_minute'' := floor_minute (r ''_ts''))) (rows G)\<rparr>"
proof (rule groupby_mean_rows)
  show "rows (set_col G ''_minute'' (map floor_minute (col G ''_ts'')))
          = rows \<lparr>columns = [], rows = map (\<lambda>r. r(''_minute'' := floor_minute (r ''_ts''))) (rows G)\<rparr>"
    using set_col_rows [of G "''_minute''" "\<lambda>r. floor_minute (r ''_ts'')"]
    by (simp add: col_def o_def)
qed

lemma compute_energy_result:
  "snd (compute_energy td tn st df timecol pcol fill tz top_gaps) =
     (if timecol \<notin> set (columns (st ! df)) then Inl (MissingFieldError timecol)
      else case resolve_powercol tn (st ! df) timecol pcol of
          Inl e \<Rightarrow> Inl e
        | Inr pc \<Rightarrow>
           if list_all (\<lambda>x. x = None) (map td (col (st ! df) timecol))
           then Inl UnparsableTimestampsError
           else if valid_sorted_rows td tn timecol pc (rows (st ! df)) = []
           then Inl EmptyInputError
           else energy_of_buckets
                  (groupby_mean \<lparr>columns = [],
                     rows = map (\<lambda>r. r(''_minute'' := floor_minute (r ''_ts'')))
                              (valid_sorted_rows td tn timecol pc (rows (st ! df)))\<rparr>)
                  pc fill top_gaps)"
proof -
  have w: "rows (sort_values (dropna_subset
              (set_col (set_col (st ! df) ''_ts'' (map (time_cell \<circ> td) (col (st ! df) timecol))) ''_p''
                 (map (\<lambda>x. num_cell (tn x))
                    (col (set_col (st ! df) ''_ts'' (map (time_cell \<circ> td) (col (st ! df) timecol))) pc)))
              [''_ts'', ''_p'']) ''_ts'')
           = valid_sorted_rows td tn timecol pc (rows (st ! df))" for pc
    using sorted_frame_rows [OF working_copy_rows, of "st ! df" td timecol tn pc] by simp
  show ?thesis
    unfolding compute_energy_def alloc_def store_set_col_def
    by (simp add: Let_def nth_append w minute_frame_buckets split: sum.split)
qed

section \<open>The error for empty input\<close>

lemma reindex_length: "length (reindex per_min full_idx) = length full_idx"
  by (simp add: reindex_def)

lemma timeline_report:
  "\<exists>r. build_gap_report (date_range a b) (reindex per_min (date_range a b)) top_n = Inr r"
proof -
  have "length (date_range a b) = length (reindex per_min (date_range a b))"
    by (simp add: reindex_length)
  from gaps_of_timeline [OF this refl]
  obtain gaps where "gaps_loop (date_range a b) (isna (reindex per_min (date_range a b))) 0 [] = Inr gaps"
    by blast
  from build_gap_report_Inr [OF this, of top_n] show ?thesis by blast
qed














section \<open>The undercount of the drop policy\<close>

lemma undercount_rows:
  "map (\<lambda>r. (minute_of (floor_minute (r ''_ts'')), cell_num (r ''_p'')))
     (valid_sorted_rows scenario_to_datetime scenario_to_numeric ''_time'' ''power''
        (rows undercount_frame))
   = [(0, 120), (1, 120), (2, 120), (7, 120), (8, 120), (9, 120)]"
  by (simp add: valid_sorted_rows_def working_rows_def undercount_frame_def mk_frame_def
        mk_row_def sample_def time_cell_def num_cell_def minute_of_def ns_per_minute_def)


lemma groupby_minute_frame:
  "groupby_mean \<lparr>columns = [], rows = map (\<lambda>r. r(''_minute'' := floor_minute (r ''_ts''))) rs\<rparr>
     = (let pairs = map (\<lambda>r. (minute_of (floor_minute (r ''_ts'')), cell_num (r ''_p''))) rs
        in map (\<lambda>k. (k, mean (map snd (filter (\<lambda>p. fst p = k) pairs))))
             (sort (remdups (map fst pairs))))"
  by (simp add: groupby_mean_def o_def)

lemma undercount_buckets:
  "groupby_mean \<lparr>columns = [],
      rows = map (\<lambda>r. r(''_minute'' := floor_minute (r ''_ts'')))
               (valid_sorted_rows scenario_to_datetime scenario_to_numeric ''_time'' ''power''
                  (rows undercount_frame))\<rparr>
     = [(0, 120), (1, 120), (2, 120), (7, 120), (8, 120), (9, 120)]"
  unfolding groupby_minute_frame undercount_rows by (simp add: mean_def)

lemma undercount_series:
  "reindex [(0, 120), (1, 120), (2, 120), (7, 120), (8, 120), (9, 120)] (date_range 0 9)
     = gap_scenario"
  unfolding scenario_range by (simp add: reindex_def gap_scenario_def)

lemma undercount_window:
  "index_min [(0, 120), (1, 120), (2, 120), (7, 120), (8, 120), (9, 120)] = 0"
  "index_max [(0, 120), (1, 120), (2, 120), (7, 120), (8, 120), (9, 120)] = 9"
  by (simp_all add: index_min_def index_max_def)

lemma undercount_drop: "energy_kwh (fill_series ''none'' gap_scenario) = 12 / 1000"
  by (simp add: fill_series_def dropna_def gap_scenario_def energy_kwh_def valid_values_def
        List.map_filter_simps)

lemma undercount_locf: "energy_kwh (fill_series ''locf'' gap_scenario) = 20 / 1000"
  by (simp add: fill_series_def ffill_def gap_scenario_def energy_kwh_def valid_values_def
        List.map_filter_simps)

lemma undercount_filled:
  "fill_series ''none'' gap_scenario \<noteq> []" "fill_series ''locf'' gap_scenario \<noteq> []"
  by (simp_all add: fill_series_def dropna_def ffill_def gap_scenario_def)


lemma energy_of_buckets_total:
  assumes "fill_series fill (reindex per_min (date_range (index_min per_min) (index_max per_min))) \<noteq> []"
  shows "\<exists>r. energy_of_buckets per_min pc fill top_n = Inr r
           \<and> total_kwh r = energy_kwh (fill_series fill
                 (reindex per_min (date_range (index_min per_min) (index_max per_min))))"
  using timeline_report [of "index_min per_min" "index_max per_min" per_min top_n] assms
  by (auto simp: energy_of_buckets_def Let_def)

lemma undercount_result:
  assumes "fill_series fill gap_scenario \<noteq> []"
  shows "\<exists>r. snd (compute_energy scenario_to_datetime scenario_to_numeric [undercount_frame] 0
                 ''_time'' (Some ''power'') fill ''UTC'' 10) = Inr r
           \<and> total_kwh r = energy_kwh (fill_series fill gap_scenario)"
proof -
  have ne: "valid_sorted_rows scenario_to_datetime scenario_to_numeric ''_time'' ''power''
              (rows undercount_frame) \<noteq> []"
    using undercount_rows by auto
  have c: "columns undercount_frame = [''_time'', ''power'']"
    by (simp add: undercount_frame_def mk_frame_def)
  have p: "\<not> list_all (\<lambda>x. x = None)
             (map scenario_to_datetime (col undercount_frame ''_time''))"
    by (simp add: undercount_frame_def mk_frame_def mk_row_def sample_def col_def)
  have e: "snd (compute_energy scenario_to_datetime scenario_to_numeric [undercount_frame] 0
                 ''_time'' (Some ''power'') fill ''UTC'' 10)
        = energy_of_buckets [(0, 120), (1, 120), (2, 120), (7, 120), (8, 120), (9, 120)]
            ''power'' fill 10"
    unfolding compute_energy_result
    using ne p by (simp add: c resolve_powercol_def undercount_buckets)
  have "fill_series fill (reindex [(0, 120), (1, 120), (2, 120), (7, 120), (8, 120), (9, 120)]
          (date_range (index_min [(0, 120), (1, 120), (2, 120), (7, 120), (8, 120), (9, 120)])
                      (index_max [(0, 120), (1, 120), (2, 120), (7, 120), (8, 120), (9, 120)])))
          = fill_series fill gap_scenario"
    unfolding undercount_window undercount_series ..
  with energy_of_buckets_total [of fill "[(0, 120), (1, 120), (2, 120), (7, 120), (8, 120), (9, 120)]"
      "''power''" 10] assms
  show ?thesis unfolding e by auto
qed

text \<open>
  Claim C8. On the ten-minute input with the minutes 3 to 6 missing and 120 W elsewhere,
  compute_energy with the policy \<^verbatim>\<open>none\<close> (drop) returns a total of
  120 * 6 / 60000 = 0.012 kWh, which is less than the total it returns with \<^verbatim>\<open>locf\<close>
  on the same input.
\<close>
theorem C8_drop_undercount:
  "\<exists>rd rl.
     snd (compute_energy scenario_to_datetime scenario_to_numeric [undercount_frame] 0
            ''_time'' (Some ''power'') ''none'' ''UTC'' 10) = Inr rd
   \<and> snd (compute_energy scenario_to_datetime scenario_to_numeric [undercount_frame] 0
            ''_time'' (Some ''power'') ''locf'' ''UTC'' 10) = Inr rl
   \<and> total_kwh rd = 120 * 6 / 60000 \<and> total_kwh rd = 12 / 1000
   \<and> total_kwh rd < total_kwh rl"
proof -
  from undercount_result [OF undercount_filled(1)]
  obtain rd where rd: "snd (compute_energy scenario_to_datetime scenario_to_numeric
      [undercount_frame] 0 ''_time'' (Some ''power'') ''none'' ''UTC'' 10) = Inr rd"
    "total_kwh rd = 12 / 1000"
    by (auto simp: undercount_drop)
  from undercount_result [OF undercount_filled(2)]
  obtain rl where rl: "snd (compute_energy scenario_to_datetime scenario_to_numeric
      [undercount_frame] 0 ''_time'' (Some ''power'') ''locf'' ''UTC'' 10) = Inr rl"
    "total_kwh rl = 20 / 1000"
    by (auto simp: undercount_locf)
  have "total_kwh rd = 120 * 6 / 60000" "total_kwh rd < total_kwh rl"
    using rd(2) rl(2) by simp_all
  with rd rl show ?thesis by blast
qed

section \<open>The energy in exact arithmetic\<close>

text \<open>
  Over exact rationals the total is the sum of the values divided by 60000, and sixty
  minutes at a constant \<open>w\<close> Watts give \<open>60 * w / 60000\<close>. The source works in binary
  floating point: it divides each value by \<^verbatim>\<open>60000.0\<close> and then sums, rounding every
  quotient and every partial sum, so these identities say nothing about the last bits of
  the number the program returns.
\<close>

lemma sum_list_scaled: "sum_list (map (\<lambda>w. w / c) ws) = sum_list ws / (c :: rat)"
  by (induction ws) (simp_all add: add_divide_distrib)

lemma energy_kwh_exact: "energy_kwh filled = sum_list (valid_values filled) / 60000"
  unfolding energy_kwh_def by (rule sum_list_scaled)

lemma energy_kwh_constant:
  "energy_kwh (map (\<lambda>k. (k, Some w)) ks) = of_nat (length ks) * w / 60000"
proof -
  have "valid_values (map (\<lambda>k. (k, Some w)) ks) = replicate (length ks) w"
    by (induction ks) (simp_all add: valid_values_def List.map_filter_simps)
  then show ?thesis
    by (simp add: energy_kwh_exact sum_list_replicate)
qed

end
